theory Spec2Isabelle
  imports Main "HOL-Library.Sublist" "HOL-Library.Multiset"
begin

section \<open>Data model of \<^verbatim>\<open>top-workplaces.ts\<close>\<close>

text \<open>
  The three interfaces of the source. The field \<^verbatim>\<open>id\<close> of \<^verbatim>\<open>Workplace\<close> is
  written \<open>w_id\<close> and \<^verbatim>\<open>name\<close> is written \<open>w_name\<close>, since \<open>id\<close> is a constant of
  HOL and \<^verbatim>\<open>TopWorkPlaces\<close> has a field \<^verbatim>\<open>name\<close> of its own.
\<close>

record Workplace =
  w_id :: string
  w_name :: string

record Shift =
  workplaceId :: string
  workerId :: string

text \<open>
  The values that can be stored under a key of the object built by \<^verbatim>\<open>countShifts\<close>,
  or read from it. TypeScript declares them \<^verbatim>\<open>number\<close>, but the object starts as the
  literal \<^verbatim>\<open>{}\<close>, whose prototype is \<^verbatim>\<open>Object.prototype\<close>, so a read can also
  return an inherited member:
  \<^item> \<open>Undefined\<close>: the key is neither an own nor an inherited property;
  \<^item> \<open>Num n\<close>: the number \<open>n\<close> (a count never exceeds the length of an array, which
    is below \<open>2 ^ 32\<close>, so the double arithmetic of the source is exact);
  \<^item> \<open>Proto k\<close>: the member of \<^verbatim>\<open>Object.prototype\<close> named \<open>k\<close>: a built-in function,
    or for \<^verbatim>\<open>__proto__\<close> the prototype object itself (the accessor's getter);
  \<^item> \<open>Tail k n\<close>: the string made of the text of \<open>Proto k\<close> followed by \<open>n\<close>
    characters \<^verbatim>\<open>1\<close>, which is what \<^verbatim>\<open>+ 1\<close> builds from a non-number;
  \<^item> \<open>NaN\<close>: the number NaN (\<^verbatim>\<open>undefined + 1\<close>).
\<close>

datatype jsval = Undefined | NaN | Num nat | Proto string | Tail string nat

record TopWorkPlaces =
  name :: string
  shifts :: jsval

section \<open>Objects used as dictionaries\<close>

text \<open>The property names every object inherits from \<^verbatim>\<open>Object.prototype\<close>.\<close>

definition object_prototype_keys :: "string list" where
  "object_prototype_keys =
     [''constructor'', ''__defineGetter__'', ''__defineSetter__'', ''hasOwnProperty'',
      ''__lookupGetter__'', ''__lookupSetter__'', ''isPrototypeOf'',
      ''propertyIsEnumerable'', ''toString'', ''valueOf'', ''__proto__'',
      ''toLocaleString'']"

text \<open>An object is the map of its own properties; its prototype is \<^verbatim>\<open>Object.prototype\<close>.\<close>

type_synonym record_obj = "string \<rightharpoonup> jsval"

text \<open>\<^verbatim>\<open>obj[k]\<close>: the own property, else the inherited one, else \<^verbatim>\<open>undefined\<close>.\<close>

definition get_prop :: "record_obj \<Rightarrow> string \<Rightarrow> jsval" where
  "get_prop obj k =
     (case obj k of
        Some v \<Rightarrow> v
      | None \<Rightarrow> if k \<in> set object_prototype_keys then Proto k else Undefined)"

text \<open>
  \<^verbatim>\<open>obj[k] = v\<close> for a primitive \<open>v\<close> (the only values the source assigns): it creates
  or overwrites the own property, except for \<^verbatim>\<open>__proto__\<close>, whose inherited setter
  ignores every value that is neither an object nor null.
\<close>

definition set_prop :: "record_obj \<Rightarrow> string \<Rightarrow> jsval \<Rightarrow> record_obj" where
  "set_prop obj k v = (if k = ''__proto__'' then obj else obj(k \<mapsto> v))"

fun truthy :: "jsval \<Rightarrow> bool" where
  "truthy Undefined = False"
| "truthy NaN = False"
| "truthy (Num n) = (n \<noteq> 0)"
| "truthy (Proto k) = True"
| "truthy (Tail k n) = True"

text \<open>\<^verbatim>\<open>v || 0\<close>\<close>

definition or_zero :: "jsval \<Rightarrow> jsval" where
  "or_zero v = (if truthy v then v else Num 0)"

text \<open>
  \<^verbatim>\<open>v + 1\<close>: addition on numbers; a function or an object is first converted to its
  text, and a string operand makes \<^verbatim>\<open>+\<close> a concatenation.
\<close>

fun plus_one :: "jsval \<Rightarrow> jsval" where
  "plus_one Undefined = NaN"
| "plus_one NaN = NaN"
| "plus_one (Num n) = Num (n + 1)"
| "plus_one (Proto k) = Tail k 1"
| "plus_one (Tail k n) = Tail k (n + 1)"

text \<open>
  \<^verbatim>\<open>ToNumber\<close>, with \<open>None\<close> for NaN. The text of a built-in function starts with
  \<^verbatim>\<open>function\<close> and that of the prototype object is \<^verbatim>\<open>[object Object]\<close>, so neither
  they nor the strings built from them are numeric.
\<close>

fun to_number :: "jsval \<Rightarrow> int option" where
  "to_number Undefined = None"
| "to_number NaN = None"
| "to_number (Num n) = Some (int n)"
| "to_number (Proto k) = None"
| "to_number (Tail k n) = None"

section \<open>countShifts\<close>

text \<open>
  The reducer \<^verbatim>\<open>(acc, { workplaceId }) => { acc[workplaceId] = (acc[workplaceId] || 0) + 1;
  return acc; }\<close>. It reads no other field of the shift.
\<close>

definition count_step :: "record_obj \<Rightarrow> Shift \<Rightarrow> record_obj" where
  "count_step acc s =
     set_prop acc (workplaceId s) (plus_one (or_zero (get_prop acc (workplaceId s))))"

text \<open>\<^verbatim>\<open>shifts.reduce(reducer, {})\<close>: a left fold from the empty object.\<close>

definition countShifts :: "Shift list \<Rightarrow> record_obj" where
  "countShifts shs = foldl count_step Map.empty shs"

section \<open>getTopThreeWorkplaces\<close>

text \<open>The callback of \<^verbatim>\<open>map\<close>: \<^verbatim>\<open>({ id, name }) => ({ name, shifts: shiftCounts[id] || 0 })\<close>.\<close>

definition toRanked :: "record_obj \<Rightarrow> Workplace \<Rightarrow> TopWorkPlaces" where
  "toRanked shiftCounts w =
     \<lparr>name = w_name w, shifts = or_zero (get_prop shiftCounts (w_id w))\<rparr>"

text \<open>The joined sequence, before sorting and truncation.\<close>

definition joined :: "Workplace list \<Rightarrow> record_obj \<Rightarrow> TopWorkPlaces list" where
  "joined workplaces shiftCounts = map (toRanked shiftCounts) workplaces"

text \<open>
  The comparator \<^verbatim>\<open>(a, b) => b.shifts - a.shifts\<close>; \<open>None\<close> is NaN, the result of a
  subtraction with a non-numeric operand.
\<close>

definition compareFn :: "TopWorkPlaces \<Rightarrow> TopWorkPlaces \<Rightarrow> int option" where
  "compareFn a b =
     (case (to_number (shifts b), to_number (shifts a)) of
        (Some x, Some y) \<Rightarrow> Some (x - y)
      | _ \<Rightarrow> None)"

text \<open>
  \<^verbatim>\<open>Array.prototype.sort\<close> with a comparator. The engine reads a NaN returned by
  the comparator as \<open>0\<close>.
\<close>

definition sort_compare :: "('a \<Rightarrow> 'a \<Rightarrow> int option) \<Rightarrow> 'a \<Rightarrow> 'a \<Rightarrow> int" where
  "sort_compare cmp a b = (case cmp a b of None \<Rightarrow> 0 | Some v \<Rightarrow> v)"

text \<open>
  The language fixes the result when the comparator is a consistent comparator for
  the elements of the array: the elements in the order of the comparator, \<open>a\<close> after
  \<open>b\<close> when the comparator is positive on \<open>(a, b)\<close>, and elements that compare equal
  in the order they had (the sort is stable since ECMAScript 2019, Node 11). That
  order is unique, and \<open>stable_sort\<close> computes it by insertion.
\<close>

fun insert_sorted :: "('a \<Rightarrow> 'a \<Rightarrow> int option) \<Rightarrow> 'a \<Rightarrow> 'a list \<Rightarrow> 'a list" where
  "insert_sorted cmp x [] = [x]"
| "insert_sorted cmp x (y # ys) =
     (if 0 < sort_compare cmp x y then y # insert_sorted cmp x ys else x # y # ys)"

definition stable_sort :: "('a \<Rightarrow> 'a \<Rightarrow> int option) \<Rightarrow> 'a list \<Rightarrow> 'a list" where
  "stable_sort cmp xs = foldr (insert_sorted cmp) xs []"

text \<open>
  The standard's consistent comparator, for the elements of \<open>xs\<close>: comparing equal
  (the comparator is \<open>0\<close>) is reflexive, symmetric and transitive, and comparing
  less (negative) and comparing greater (positive) are transitive. With the
  comparator of the source this holds when every \<open>shifts\<close> is a number, and also
  when all elements compare equal; it fails as soon as two different numbers stand
  beside a value that is not a number, which compares equal (NaN) to both.
\<close>

definition consistent :: "('a \<Rightarrow> 'a \<Rightarrow> int option) \<Rightarrow> 'a list \<Rightarrow> bool" where
  "consistent cmp xs =
     list_all (\<lambda>a.
       sort_compare cmp a a = 0 \<and>
       list_all (\<lambda>b.
         (if sort_compare cmp a b = 0 then sort_compare cmp b a = 0 else True) \<and>
         list_all (\<lambda>c.
           (if sort_compare cmp a b = 0 \<and> sort_compare cmp b c = 0
            then sort_compare cmp a c = 0 else True) \<and>
           (if sort_compare cmp a b < 0 \<and> sort_compare cmp b c < 0
            then sort_compare cmp a c < 0 else True) \<and>
           (if 0 < sort_compare cmp a b \<and> 0 < sort_compare cmp b c
            then 0 < sort_compare cmp a c else True)) xs) xs) xs"

text \<open>
  When the comparator is not consistent the standard leaves the order to the engine.
  The engine is not part of the source: it is a parameter of the model, a function
  from the comparator (NaN read as \<open>0\<close>) and the array to the array it leaves.
  Whatever its algorithm an engine only rearranges the elements, so a parameter whose
  result is no rearrangement of the array is not an engine, and the array is then
  left as it was.
\<close>

type_synonym 'a engine = "('a \<Rightarrow> 'a \<Rightarrow> int) \<Rightarrow> 'a list \<Rightarrow> 'a list"

definition array_sort :: "'a engine \<Rightarrow> ('a \<Rightarrow> 'a \<Rightarrow> int option) \<Rightarrow> 'a list \<Rightarrow> 'a list" where
  "array_sort engine cmp xs =
     (if consistent cmp xs then stable_sort cmp xs
      else (let ys = engine (sort_compare cmp) xs
            in if mset ys = mset xs then ys else xs))"

text \<open>
  The engine of Node (V8) on an array of fewer than 64 elements, where its TimSort
  has a single run and merges nothing. \<^verbatim>\<open>CountAndMakeRun\<close> takes the longest run at the
  start of the array: descending when the comparator is negative on the second
  element against the first and then on each element against the one before it,
  ascending otherwise as long as it is not negative; a descending run is reversed.
  \<^verbatim>\<open>BinaryInsertionSort\<close> then inserts each remaining element into the part before
  it, at the place a binary search finds: left of the middle element when the
  comparator is negative on the new element against it, right of it otherwise. On an
  array of 64 elements or more V8 sorts several runs and merges them; that is not
  modelled, and nothing below depends on it.
\<close>

fun extend_run :: "('a \<Rightarrow> 'a \<Rightarrow> int) \<Rightarrow> bool \<Rightarrow> 'a \<Rightarrow> 'a list \<Rightarrow> nat" where
  "extend_run cf descending_run previous [] = 0"
| "extend_run cf descending_run previous (current # rest) =
     (if descending_run then
        (if 0 \<le> cf current previous then 0
         else Suc (extend_run cf descending_run current rest))
      else
        (if cf current previous < 0 then 0
         else Suc (extend_run cf descending_run current rest)))"

fun count_and_make_run :: "('a \<Rightarrow> 'a \<Rightarrow> int) \<Rightarrow> 'a list \<Rightarrow> 'a list \<times> nat" where
  "count_and_make_run cf (x0 # x1 # rest) =
     (let descending_run = (cf x1 x0 < 0);
          run_length = 2 + extend_run cf descending_run x1 rest
      in (if descending_run
          then rev (take run_length (x0 # x1 # rest)) @ drop run_length (x0 # x1 # rest)
          else x0 # x1 # rest,
          run_length))"
| "count_and_make_run cf xs = (xs, length xs)"

function binary_search :: "('a \<Rightarrow> 'a \<Rightarrow> int) \<Rightarrow> 'a \<Rightarrow> 'a list \<Rightarrow> nat \<Rightarrow> nat \<Rightarrow> nat" where
  "binary_search cf pivot xs left right =
     (if left < right then
        (let mid = left + (right - left) div 2
         in if cf pivot (xs ! mid) < 0 then binary_search cf pivot xs left mid
            else binary_search cf pivot xs (mid + 1) right)
      else left)"
  by pat_completeness auto
termination
  by (relation "measure (\<lambda>(cf, pivot, xs, left, right). right - left)") auto

declare binary_search.simps [simp del]

text \<open>
  The element at \<open>start\<close> is moved to \<open>left\<close> and the elements from \<open>left\<close> to
  \<open>start - 1\<close> move one place to the right. The loop of \<^verbatim>\<open>BinaryInsertionSort\<close> runs
  \<open>start\<close> from the end of the run to the end of the array; \<open>remaining\<close> counts the
  elements still to insert.
\<close>

definition insert_pivot :: "'a list \<Rightarrow> nat \<Rightarrow> nat \<Rightarrow> 'a list" where
  "insert_pivot xs left start =
     take left xs @ (xs ! start) # drop left (take start xs) @ drop (Suc start) xs"

fun binary_insertion_sort :: "('a \<Rightarrow> 'a \<Rightarrow> int) \<Rightarrow> 'a list \<Rightarrow> nat \<Rightarrow> nat \<Rightarrow> 'a list" where
  "binary_insertion_sort cf xs start 0 = xs"
| "binary_insertion_sort cf xs start (Suc remaining) =
     binary_insertion_sort cf
       (insert_pivot xs (binary_search cf (xs ! start) xs 0 start) start)
       (Suc start) remaining"

definition v8_short_sort :: "'a engine" where
  "v8_short_sort cf xs =
     (if length xs < 2 then xs
      else (case count_and_make_run cf xs of
              (ys, run_length) \<Rightarrow> binary_insertion_sort cf ys run_length (length ys - run_length)))"

text \<open>\<^verbatim>\<open>workplaces.map(...).sort(...).slice(0, 3)\<close>\<close>

definition getTopThreeWorkplaces ::
  "TopWorkPlaces engine \<Rightarrow> Workplace list \<Rightarrow> record_obj \<Rightarrow> TopWorkPlaces list" where
  "getTopThreeWorkplaces engine workplaces shiftCounts =
     take 3 (array_sort engine compareFn (joined workplaces shiftCounts))"

section \<open>getTopWorkplaces\<close>

text \<open>
  What the HTTP client (a collaborator, not part of the source) hands to
  \<^verbatim>\<open>fetchData\<close>. \<^verbatim>\<open>lastValueFrom(this.httpService.get(url))\<close> either rejects
  (connection error, non-success status) or resolves with a response whose
  \<^verbatim>\<open>data\<close> is the decoded body:
  \<^item> \<open>Nullish\<close>: \<^verbatim>\<open>response.data\<close> is null or undefined;
  \<^item> \<open>Body d\<close>: any other body, \<open>d\<close> being what reading its property \<^verbatim>\<open>data\<close>
    gives: \<open>Missing\<close> (undefined: an object without the field, or the raw text of a
    body that could not be parsed), \<open>NotArray\<close> (a value that is not an array) or
    \<open>Arr xs\<close> (the collection).
\<close>

datatype 'a jsdata = Missing | NotArray | Arr "'a list"

datatype 'a body = Nullish | Body "'a jsdata"

datatype 'a http_result = HttpError | HttpResponse "'a body"

datatype error = Rejected | TypeError

text \<open>
  \<^verbatim>\<open>fetchData\<close>: \<^verbatim>\<open>await\<close> rethrows a rejection; \<^verbatim>\<open>response.data.data\<close> throws a
  TypeError when \<^verbatim>\<open>response.data\<close> is null or undefined.
\<close>

fun fetchData :: "'a http_result \<Rightarrow> error + 'a jsdata" where
  "fetchData HttpError = Inl Rejected"
| "fetchData (HttpResponse Nullish) = Inl TypeError"
| "fetchData (HttpResponse (Body d)) = Inr d"

text \<open>\<^verbatim>\<open>await Promise.all([p, q])\<close>: both values, or a rejection if either rejects.\<close>

definition promise_all :: "error + 'a \<Rightarrow> error + 'b \<Rightarrow> error + ('a \<times> 'b)" where
  "promise_all p q =
     (case p of
        Inl e \<Rightarrow> Inl e
      | Inr x \<Rightarrow> (case q of Inl e \<Rightarrow> Inl e | Inr y \<Rightarrow> Inr (x, y)))"

text \<open>
  The two method calls on the values the retrievals returned. The annotations of
  TypeScript are erased at run time: \<^verbatim>\<open>shifts.reduce\<close> and \<^verbatim>\<open>workplaces.map\<close> throw a
  TypeError on undefined and on a value that has no such method.
\<close>

fun call_countShifts :: "Shift jsdata \<Rightarrow> error + record_obj" where
  "call_countShifts (Arr shs) = Inr (countShifts shs)"
| "call_countShifts Missing = Inl TypeError"
| "call_countShifts NotArray = Inl TypeError"

fun call_getTopThreeWorkplaces ::
  "TopWorkPlaces engine \<Rightarrow> Workplace jsdata \<Rightarrow> record_obj \<Rightarrow> error + TopWorkPlaces list" where
  "call_getTopThreeWorkplaces engine (Arr workplaces) shiftCounts =
     Inr (getTopThreeWorkplaces engine workplaces shiftCounts)"
| "call_getTopThreeWorkplaces engine Missing shiftCounts = Inl TypeError"
| "call_getTopThreeWorkplaces engine NotArray shiftCounts = Inl TypeError"

text \<open>The body of the \<^verbatim>\<open>try\<close> block.\<close>

definition try_block ::
  "TopWorkPlaces engine \<Rightarrow> Workplace http_result \<Rightarrow> Shift http_result \<Rightarrow>
   error + TopWorkPlaces list" where
  "try_block engine wr sr =
     (case promise_all (fetchData wr) (fetchData sr) of
        Inl e \<Rightarrow> Inl e
      | Inr (workplaces, shs) \<Rightarrow>
          (case call_countShifts shs of
             Inl e \<Rightarrow> Inl e
           | Inr shiftCounts \<Rightarrow> call_getTopThreeWorkplaces engine workplaces shiftCounts))"

text \<open>
  What a call of \<^verbatim>\<open>getTopWorkplaces\<close> does: \<open>settled\<close> is how its promise settles
  (\<open>Inl\<close> a rejection, \<open>Inr\<close> the value), \<open>console_errors\<close> the number of calls of
  \<^verbatim>\<open>console.error\<close>.
\<close>

record outcome =
  settled :: "error + TopWorkPlaces list"
  console_errors :: nat

text \<open>\<^verbatim>\<open>try { ... } catch (error) { console.error(...); return []; }\<close>\<close>

definition getTopWorkplaces ::
  "TopWorkPlaces engine \<Rightarrow> Workplace http_result \<Rightarrow> Shift http_result \<Rightarrow> outcome" where
  "getTopWorkplaces engine wr sr =
     (case try_block engine wr sr of
        Inl e \<Rightarrow> \<lparr>settled = Inr [], console_errors = 1\<rparr>
      | Inr res \<Rightarrow> \<lparr>settled = Inr res, console_errors = 0\<rparr>)"

section \<open>The aggregation on a store\<close>

text \<open>
  Arrays and objects are references in the source, and \<^verbatim>\<open>sort\<close> and the reducer
  write through them. To speak about what is written, here are the same two
  functions on a store: a list of cells, a reference being an index, and an
  allocation appending a cell. The callbacks read the fields of the elements and
  write none, so a cell holds the elements themselves.
\<close>

datatype cell =
    WorkplaceArr "Workplace list"
  | ShiftArr "Shift list"
  | RankedArr "TopWorkPlaces list"
  | Obj record_obj

type_synonym store = "cell list"

definition alloc :: "store \<Rightarrow> cell \<Rightarrow> store \<times> nat" where
  "alloc h c = (h @ [c], length h)"

text \<open>The reducer, writing to the accumulator object in place.\<close>

definition count_step_st :: "nat \<Rightarrow> store \<Rightarrow> Shift \<Rightarrow> store" where
  "count_step_st acc h s =
     (case h ! acc of Obj obj \<Rightarrow> h[acc := Obj (count_step obj s)] | _ \<Rightarrow> h)"

text \<open>\<^verbatim>\<open>countShifts\<close>: allocates \<^verbatim>\<open>{}\<close>, folds the reducer over the array at \<open>r\<close>.\<close>

definition countShifts_st :: "store \<Rightarrow> nat \<Rightarrow> error + (store \<times> nat)" where
  "countShifts_st h r =
     (if r < length h then
        (case h ! r of
           ShiftArr shs \<Rightarrow>
             (case alloc h (Obj Map.empty) of
                (h1, acc) \<Rightarrow> Inr (foldl (count_step_st acc) h1 shs, acc))
         | _ \<Rightarrow> Inl TypeError)
      else Inl TypeError)"

text \<open>\<^verbatim>\<open>map\<close> allocates its result; \<^verbatim>\<open>sort\<close> sorts the array it is called on, in place,
  and returns the same reference; \<^verbatim>\<open>slice\<close> allocates its result.\<close>

definition array_map_st :: "store \<Rightarrow> Workplace list \<Rightarrow> record_obj \<Rightarrow> store \<times> nat" where
  "array_map_st h workplaces shiftCounts =
     alloc h (RankedArr (map (toRanked shiftCounts) workplaces))"

definition array_sort_st :: "TopWorkPlaces engine \<Rightarrow> store \<Rightarrow> nat \<Rightarrow> store \<times> nat" where
  "array_sort_st engine h a =
     (case h ! a of
        RankedArr xs \<Rightarrow> (h[a := RankedArr (array_sort engine compareFn xs)], a)
      | _ \<Rightarrow> (h, a))"

definition array_slice_st :: "store \<Rightarrow> nat \<Rightarrow> store \<times> nat" where
  "array_slice_st h a =
     (case h ! a of
        RankedArr xs \<Rightarrow> alloc h (RankedArr (take 3 xs))
      | _ \<Rightarrow> (h, a))"

definition getTopThreeWorkplaces_st ::
  "TopWorkPlaces engine \<Rightarrow> store \<Rightarrow> nat \<Rightarrow> nat \<Rightarrow> error + (store \<times> nat)" where
  "getTopThreeWorkplaces_st engine h w c =
     (if w < length h \<and> c < length h then
        (case (h ! w, h ! c) of
           (WorkplaceArr workplaces, Obj shiftCounts) \<Rightarrow>
             (case array_map_st h workplaces shiftCounts of
                (h1, a1) \<Rightarrow>
                  (case array_sort_st engine h1 a1 of
                     (h2, a2) \<Rightarrow> Inr (array_slice_st h2 a2)))
         | _ \<Rightarrow> Inl TypeError)
      else Inl TypeError)"

text \<open>Lines 41 and 42 of the source: the two calls, one after the other.\<close>

definition aggregate_st ::
  "TopWorkPlaces engine \<Rightarrow> store \<Rightarrow> nat \<Rightarrow> nat \<Rightarrow> error + (store \<times> nat)" where
  "aggregate_st engine h w s =
     (case countShifts_st h s of
        Inl e \<Rightarrow> Inl e
      | Inr (h1, c) \<Rightarrow> getTopThreeWorkplaces_st engine h1 w c)"

section \<open>Notions of the specification\<close>

text \<open>The number of shift records whose \<^verbatim>\<open>workplaceId\<close> equals \<open>k\<close>.\<close>

definition tally :: "Shift list \<Rightarrow> string \<Rightarrow> nat" where
  "tally shs k = length (filter (\<lambda>s. workplaceId s = k) shs)"

text \<open>
  \<open>a \<ge> b\<close> on counts. A value that is not a number is not a count; JavaScript's own
  \<^verbatim>\<open>>=\<close> is false as well between a number and a function, an object or a string
  that is not numeric.
\<close>

fun count_ge :: "jsval \<Rightarrow> jsval \<Rightarrow> bool" where
  "count_ge (Num m) (Num n) = (n \<le> m)"
| "count_ge _ _ = False"

text \<open>Every adjacent pair \<open>(a, b)\<close> of the sequence has \<open>a.shifts \<ge> b.shifts\<close>.\<close>

fun descending :: "TopWorkPlaces list \<Rightarrow> bool" where
  "descending (a # b # rest) = (count_ge (shifts a) (shifts b) \<and> descending (b # rest))"
| "descending _ = True"

text \<open>A shift is an orphan when no workplace has its \<^verbatim>\<open>workplaceId\<close> as id.\<close>

definition orphan :: "Workplace list \<Rightarrow> Shift \<Rightarrow> bool" where
  "orphan workplaces s = (workplaceId s \<notin> set (map w_id workplaces))"

text \<open>A retrieval fails: it rejects, or the payload lacks the envelope field.\<close>

fun retrieval_failed :: "'a http_result \<Rightarrow> bool" where
  "retrieval_failed HttpError = True"
| "retrieval_failed (HttpResponse Nullish) = True"
| "retrieval_failed (HttpResponse (Body Missing)) = True"
| "retrieval_failed (HttpResponse (Body d)) = False"

section \<open>Auxiliary notions for the proofs\<close>

text \<open>
  One execution of the reducer on a shift whose \<^verbatim>\<open>workplaceId\<close> is \<open>k\<close>, seen from
  the own property \<open>k\<close> of the accumulator alone.
\<close>

definition bump :: "string \<Rightarrow> jsval option \<Rightarrow> jsval option" where
  "bump k own =
     (if k = ''__proto__'' then own
      else Some (plus_one (or_zero (get_prop (Map.empty(k := own)) k))))"

text \<open>Every entry carries a number.\<close>

definition numeric :: "TopWorkPlaces list \<Rightarrow> bool" where
  "numeric xs = (\<forall>r \<in> set xs. \<exists>n. shifts r = Num n)"

section \<open>Properties\<close>

lemmas eval_defs = getTopThreeWorkplaces_def countShifts_def joined_def toRanked_def
  array_sort_def stable_sort_def consistent_def get_prop_def set_prop_def count_step_def or_zero_def object_prototype_keys_def
  sort_compare_def compareFn_def tally_def

subsection \<open>The object built by countShifts, key by key\<close>

lemma countShifts_snoc: "countShifts (shs @ [s]) = count_step (countShifts shs) s"
  by (simp add: countShifts_def)

lemma tally_Nil: "tally [] k = 0"
  by (simp add: tally_def)

lemma tally_snoc:
  "tally (shs @ [s]) k = (if workplaceId s = k then Suc (tally shs k) else tally shs k)"
  by (simp add: tally_def)

lemma count_step_same: "count_step acc s (workplaceId s) = bump (workplaceId s) (acc (workplaceId s))"
  by (simp add: count_step_def set_prop_def bump_def get_prop_def)

lemma count_step_other: "workplaceId s \<noteq> k \<Longrightarrow> count_step acc s k = acc k"
  by (simp add: count_step_def set_prop_def)

lemma countShifts_own: "countShifts shs k = (bump k ^^ tally shs k) None"
proof (induction shs rule: rev_induct)
  case Nil
  show ?case by (simp add: countShifts_def tally_Nil)
next
  case (snoc s shs)
  show ?case
  proof (cases "workplaceId s = k")
    case True
    then show ?thesis
      using snoc count_step_same [of "countShifts shs" s]
      by (simp add: countShifts_snoc tally_snoc)
  next
    case False
    then show ?thesis
      using snoc by (simp add: countShifts_snoc tally_snoc count_step_other)
  qed
qed

lemma bump_regular:
  "k \<notin> set object_prototype_keys \<Longrightarrow>
   (bump k ^^ n) None = (if n = 0 then None else Some (Num n))"
proof (induction n)
  case 0
  show ?case by simp
next
  case (Suc n)
  have "k \<noteq> ''__proto__''"
    using Suc.prems by (auto simp: object_prototype_keys_def)
  then show ?case
    using Suc by (simp add: bump_def get_prop_def or_zero_def)
qed

lemma toRanked_tally:
  "toRanked (countShifts shs) w = toRanked (countShifts shs') w"
  if "tally shs (w_id w) = tally shs' (w_id w)"
  using that by (simp add: toRanked_def get_prop_def countShifts_own)

lemma toRanked_regular:
  "w_id w \<notin> set object_prototype_keys \<Longrightarrow>
   toRanked (countShifts shs) w = \<lparr>name = w_name w, shifts = Num (tally shs (w_id w))\<rparr>"
  by (simp add: toRanked_def get_prop_def countShifts_own bump_regular or_zero_def)

subsection \<open>The sort\<close>

lemma mset_insert_sorted: "mset (insert_sorted cmp x ys) = add_mset x (mset ys)"
  by (induction ys) simp_all

lemma mset_stable_sort: "mset (stable_sort cmp xs) = mset xs"
  by (induction xs) (simp_all add: stable_sort_def mset_insert_sorted)

lemma set_stable_sort: "set (stable_sort cmp xs) = set xs"
  using mset_stable_sort [of cmp xs] by (metis set_mset_mset)

lemma mset_array_sort: "mset (array_sort engine cmp xs) = mset xs"
  by (simp add: array_sort_def Let_def mset_stable_sort)

lemma length_array_sort: "length (array_sort engine cmp xs) = length xs"
  using mset_array_sort [of engine cmp xs] by (metis size_mset)

lemma set_array_sort: "set (array_sort engine cmp xs) = set xs"
  using mset_array_sort [of engine cmp xs] by (metis set_mset_mset)

lemma set_insert_sorted: "set (insert_sorted cmp x ys) = insert x (set ys)"
  by (induction ys) auto

lemma sort_compare_equal_shifts: "shifts a = shifts b \<Longrightarrow> sort_compare compareFn a b = 0"
  by (simp add: sort_compare_def compareFn_def split: option.splits)

lemma filter_insert_sorted:
  "filter (\<lambda>r. shifts r = v) (insert_sorted compareFn x ys) = filter (\<lambda>r. shifts r = v) (x # ys)"
proof (induction ys)
  case Nil
  show ?case by simp
next
  case (Cons y ys)
  show ?case
  proof (cases "0 < sort_compare compareFn x y")
    case True
    then have "shifts x \<noteq> shifts y"
      using sort_compare_equal_shifts [of x y] by auto
    then show ?thesis
      using True Cons by auto
  next
    case False
    then show ?thesis by simp
  qed
qed

lemma filter_stable_sort:
  "filter (\<lambda>r. shifts r = v) (stable_sort compareFn xs) = filter (\<lambda>r. shifts r = v) xs"
proof (induction xs)
  case Nil
  show ?case by (simp add: stable_sort_def)
next
  case (Cons x xs)
  have "stable_sort compareFn (x # xs) = insert_sorted compareFn x (stable_sort compareFn xs)"
    by (simp add: stable_sort_def)
  then show ?case
    using Cons by (simp add: filter_insert_sorted)
qed

lemma prefix_filter_take: "prefix (filter P (take n xs)) (filter P xs)"
proof -
  have "filter P xs = filter P (take n xs) @ filter P (drop n xs)"
    by (metis append_take_drop_id filter_append)
  then show ?thesis
    by (simp add: prefix_def)
qed

lemma joined_regular:
  "\<forall>w \<in> set workplaces. w_id w \<notin> set object_prototype_keys \<Longrightarrow>
   joined workplaces (countShifts shs) =
     map (\<lambda>w. \<lparr>name = w_name w, shifts = Num (tally shs (w_id w))\<rparr>) workplaces"
  by (simp add: joined_def toRanked_regular)

subsection \<open>Descending order when every count is a number\<close>

lemma sort_compare_Num:
  "shifts a = Num m \<Longrightarrow> shifts b = Num n \<Longrightarrow> sort_compare compareFn a b = int n - int m"
  by (simp add: sort_compare_def compareFn_def)

lemma sorted_insert_sorted:
  "numeric (x # ys) \<Longrightarrow> sorted_wrt (\<lambda>a b. count_ge (shifts a) (shifts b)) ys \<Longrightarrow>
   sorted_wrt (\<lambda>a b. count_ge (shifts a) (shifts b)) (insert_sorted compareFn x ys)"
proof (induction ys)
  case Nil
  show ?case by simp
next
  case (Cons y ys)
  obtain m n where mn: "shifts x = Num m" "shifts y = Num n"
    using Cons.prems(1) by (auto simp: numeric_def)
  have num: "numeric (x # ys)"
    using Cons.prems(1) by (simp add: numeric_def)
  show ?case
  proof (cases "0 < sort_compare compareFn x y")
    case True
    then have "m < n"
      using mn by (simp add: sort_compare_Num)
    moreover have "\<forall>z \<in> set ys. count_ge (shifts y) (shifts z)"
      using Cons.prems(2) by simp
    ultimately show ?thesis
      using True mn Cons.IH [OF num] Cons.prems(2)
      by (auto simp: set_insert_sorted)
  next
    case False
    then have le: "n \<le> m"
      using mn by (simp add: sort_compare_Num)
    have "count_ge (shifts x) (shifts z)" if "z \<in> set ys" for z
    proof -
      have "z \<in> set (x # y # ys)"
        using that by simp
      then obtain k where k: "shifts z = Num k"
        using Cons.prems(1) unfolding numeric_def by blast
      have "count_ge (shifts y) (shifts z)"
        using that Cons.prems(2) by simp
      then show ?thesis
        using k mn le by simp
    qed
    then show ?thesis
      using False mn le Cons.prems(2) by auto
  qed
qed

lemma sorted_stable_sort:
  "numeric xs \<Longrightarrow> sorted_wrt (\<lambda>a b. count_ge (shifts a) (shifts b)) (stable_sort compareFn xs)"
proof (induction xs)
  case Nil
  show ?case by (simp add: stable_sort_def)
next
  case (Cons x xs)
  have step: "stable_sort compareFn (x # xs) = insert_sorted compareFn x (stable_sort compareFn xs)"
    by (simp add: stable_sort_def)
  have "numeric xs"
    using Cons.prems by (simp add: numeric_def)
  moreover have "numeric (x # stable_sort compareFn xs)"
    using Cons.prems by (simp add: numeric_def set_stable_sort)
  ultimately show ?case
    using Cons.IH by (simp add: step sorted_insert_sorted)
qed

lemma numeric_consistent: "numeric xs \<Longrightarrow> consistent compareFn xs"
proof -
  assume num: "numeric xs"
  have cmp: "\<exists>m n. shifts a = Num m \<and> shifts b = Num n \<and>
               sort_compare compareFn a b = int n - int m"
    if ab: "a \<in> set xs" "b \<in> set xs" for a b
  proof -
    obtain m n where "shifts a = Num m" "shifts b = Num n"
      using ab num unfolding numeric_def by blast
    then show ?thesis
      by (simp add: sort_compare_Num)
  qed
  show ?thesis
    unfolding consistent_def list_all_iff
  proof (intro ballI conjI)
    fix a assume "a \<in> set xs"
    then show "sort_compare compareFn a a = 0"
      using cmp [of a a] by auto
  next
    fix a b assume "a \<in> set xs" "b \<in> set xs"
    then show "if sort_compare compareFn a b = 0 then sort_compare compareFn b a = 0 else True"
      using cmp [of a b] cmp [of b a] by auto
  next
    fix a b c assume abc: "a \<in> set xs" "b \<in> set xs" "c \<in> set xs"
    show "if sort_compare compareFn a b = 0 \<and> sort_compare compareFn b c = 0
          then sort_compare compareFn a c = 0 else True"
      using cmp [OF abc(1,2)] cmp [OF abc(2,3)] cmp [OF abc(1,3)] by auto
    show "if sort_compare compareFn a b < 0 \<and> sort_compare compareFn b c < 0
          then sort_compare compareFn a c < 0 else True"
      using cmp [OF abc(1,2)] cmp [OF abc(2,3)] cmp [OF abc(1,3)] by auto
    show "if 0 < sort_compare compareFn a b \<and> 0 < sort_compare compareFn b c
          then 0 < sort_compare compareFn a c else True"
      using cmp [OF abc(1,2)] cmp [OF abc(2,3)] cmp [OF abc(1,3)] by auto
  qed
qed

lemma array_sort_numeric: "numeric xs \<Longrightarrow> array_sort engine compareFn xs = stable_sort compareFn xs"
  by (simp add: array_sort_def numeric_consistent)

lemma descending_sorted_wrt:
  "sorted_wrt (\<lambda>a b. count_ge (shifts a) (shifts b)) xs \<Longrightarrow> descending xs"
  by (induction xs rule: descending.induct) simp_all

lemma descending_regular:
  assumes "\<forall>w \<in> set workplaces. w_id w \<notin> set object_prototype_keys"
  shows "descending (getTopThreeWorkplaces engine workplaces (countShifts shs))"
proof -
  have num: "numeric (joined workplaces (countShifts shs))"
    using assms by (auto simp: numeric_def joined_regular)
  then have "sorted_wrt (\<lambda>a b. count_ge (shifts a) (shifts b))
               (stable_sort compareFn (joined workplaces (countShifts shs)))"
    by (rule sorted_stable_sort)
  then have "sorted_wrt (\<lambda>a b. count_ge (shifts a) (shifts b))
               (getTopThreeWorkplaces engine workplaces (countShifts shs))"
    unfolding getTopThreeWorkplaces_def array_sort_numeric [OF num] by (rule sorted_wrt_take)
  then show ?thesis
    by (rule descending_sorted_wrt)
qed

subsection \<open>Ties when the comparator is consistent\<close>

lemma ties_keep_collection_order_consistent:
  assumes "consistent compareFn (joined workplaces shiftCounts)"
  shows "prefix (filter (\<lambda>r. shifts r = v) (getTopThreeWorkplaces engine workplaces shiftCounts))
          (map (toRanked shiftCounts)
               (filter (\<lambda>w. shifts (toRanked shiftCounts w) = v) workplaces))"
proof -
  let ?P = "\<lambda>r. shifts r = v"
  have sorted: "array_sort engine compareFn (joined workplaces shiftCounts) =
        stable_sort compareFn (joined workplaces shiftCounts)"
    using assms by (simp add: array_sort_def)
  have "filter ?P (stable_sort compareFn (joined workplaces shiftCounts)) =
        filter ?P (joined workplaces shiftCounts)"
    by (rule filter_stable_sort)
  also have "\<dots> = map (toRanked shiftCounts)
                    (filter (\<lambda>w. shifts (toRanked shiftCounts w) = v) workplaces)"
    by (simp add: joined_def filter_map comp_def)
  finally show ?thesis
    using prefix_filter_take [of ?P 3 "stable_sort compareFn (joined workplaces shiftCounts)"]
    by (simp add: getTopThreeWorkplaces_def sorted)
qed

lemma ties_keep_collection_order_regular:
  assumes "\<forall>w \<in> set workplaces. w_id w \<notin> set object_prototype_keys"
  shows "prefix (filter (\<lambda>r. shifts r = v)
                  (getTopThreeWorkplaces engine workplaces (countShifts shs)))
          (map (toRanked (countShifts shs))
               (filter (\<lambda>w. shifts (toRanked (countShifts shs) w) = v) workplaces))"
proof -
  have "numeric (joined workplaces (countShifts shs))"
    using assms by (auto simp: numeric_def joined_regular)
  then have "consistent compareFn (joined workplaces (countShifts shs))"
    by (rule numeric_consistent)
  then show ?thesis
    by (rule ties_keep_collection_order_consistent)
qed

subsection \<open>The engine of Node on short arrays\<close>








text \<open>
  The engine on four entries, the third of which carries an inherited function: the
  first two are a descending run and are reversed, the third stays, and the fourth
  goes left of \<open>Alpha\<close>, the middle of the three before it, and right of \<open>Beta\<close>.
\<close>

lemma v8_short_sort_example:
  "v8_short_sort (sort_compare compareFn)
     [\<lparr>name = ''Alpha'', shifts = Num 0\<rparr>, \<lparr>name = ''Beta'', shifts = Num 1\<rparr>,
      \<lparr>name = ''Gamma'', shifts = Proto ''valueOf''\<rparr>, \<lparr>name = ''Delta'', shifts = Num 1\<rparr>] =
     [\<lparr>name = ''Beta'', shifts = Num 1\<rparr>, \<lparr>name = ''Delta'', shifts = Num 1\<rparr>,
      \<lparr>name = ''Alpha'', shifts = Num 0\<rparr>, \<lparr>name = ''Gamma'', shifts = Proto ''valueOf''\<rparr>]"
  by code_simp

subsection \<open>Count correctness\<close>

text \<open>
  Claim C1: for every workplace record \<open>w\<close>, the entry produced for \<open>w\<close> in the joined
  sequence has \<open>shifts\<close> equal to the number of shift records whose workplaceId
  equals \<open>w.id\<close>, and \<open>0\<close> when there is none. The code departs from it at an id
  that names a member of \<^verbatim>\<open>Object.prototype\<close>: for the single workplace with id
  \<^verbatim>\<open>toString\<close> and no shift at all, \<^verbatim>\<open>shiftCounts[id] || 0\<close> is the inherited function,
  not \<open>0\<close>. Lemma \<open>joined_regular\<close> above is the claim for all other ids.
\<close>

theorem C1_inherited_id_not_counted:
  "joined [\<lparr>w_id = ''toString'', w_name = ''Alpha''\<rparr>] (countShifts []) =
     [\<lparr>name = ''Alpha'', shifts = Proto ''toString''\<rparr>] \<and>
   tally [] ''toString'' = 0"
  by (simp add: eval_defs)

subsection \<open>Cardinality\<close>

lemma length_getTopThreeWorkplaces:
  "length (getTopThreeWorkplaces engine workplaces shiftCounts) = min (length workplaces) 3"
  by (simp add: getTopThreeWorkplaces_def joined_def length_array_sort min.commute)

text \<open>
  Claim C2: when both retrievals succeed and there are \<open>W\<close> workplace records, the
  sequence \<^verbatim>\<open>getTopWorkplaces\<close> returns has length \<open>min W 3\<close>.
\<close>

theorem C2_result_length:
  "\<exists>res. settled (getTopWorkplaces engine (HttpResponse (Body (Arr workplaces)))
                                   (HttpResponse (Body (Arr shs)))) = Inr res \<and>
         length res = min (length workplaces) 3"
  by (simp add: getTopWorkplaces_def try_block_def promise_all_def
      length_getTopThreeWorkplaces)

theorem C2_result_length_witness:
  "settled (getTopWorkplaces v8_short_sort
      (HttpResponse (Body (Arr [\<lparr>w_id = ''A'', w_name = ''Alpha''\<rparr>])))
      (HttpResponse (Body (Arr [])))) = Inr [\<lparr>name = ''Alpha'', shifts = Num 0\<rparr>]"
  using C2_result_length [of v8_short_sort "[\<lparr>w_id = ''A'', w_name = ''Alpha''\<rparr>]" "[]"]
  by (simp add: getTopWorkplaces_def try_block_def promise_all_def eval_defs)

subsection \<open>Stability\<close>


subsection \<open>Sort order\<close>

text \<open>
  Claim C4: the returned sequence is sorted by count descending, \<open>a.shifts \<ge> b.shifts\<close>
  for every adjacent pair. The code departs from it, again at an id that names a
  member of \<^verbatim>\<open>Object.prototype\<close>: with the workplaces \<^verbatim>\<open>toString\<close> (no shift) and
  \<^verbatim>\<open>B\<close> (one shift), the comparator returns NaN on the only pair, the array stays as
  joined, and the first entry carries a function while the second carries \<open>1\<close>.
  Lemma \<open>descending_regular\<close> above is the claim for all other ids.
\<close>

theorem C4_not_descending_at_inherited_id:
  "getTopThreeWorkplaces engine
     [\<lparr>w_id = ''toString'', w_name = ''Alpha''\<rparr>, \<lparr>w_id = ''B'', w_name = ''Beta''\<rparr>]
     (countShifts [\<lparr>workplaceId = ''B'', workerId = ''u''\<rparr>]) =
     [\<lparr>name = ''Alpha'', shifts = Proto ''toString''\<rparr>, \<lparr>name = ''Beta'', shifts = Num 1\<rparr>] \<and>
   \<not> descending
     [\<lparr>name = ''Alpha'', shifts = Proto ''toString''\<rparr>, \<lparr>name = ''Beta'', shifts = Num 1\<rparr>]"
  by (simp add: eval_defs)

subsection \<open>Orphans\<close>

lemma tally_filter:
  "P k \<Longrightarrow> tally (filter (\<lambda>s. P (workplaceId s)) shs) k = tally shs k"
  by (induction shs) (auto simp: tally_def)

lemma joined_without_orphans:
  "joined workplaces (countShifts (filter (\<lambda>s. \<not> orphan workplaces s) shs)) =
   joined workplaces (countShifts shs)"
proof -
  have "toRanked (countShifts (filter (\<lambda>s. \<not> orphan workplaces s) shs)) w =
        toRanked (countShifts shs) w" if "w \<in> set workplaces" for w
  proof (rule toRanked_tally)
    have "w_id w \<in> set (map w_id workplaces)"
      using that by simp
    then show "tally (filter (\<lambda>s. \<not> orphan workplaces s) shs) (w_id w) = tally shs (w_id w)"
      unfolding orphan_def not_not
      by (rule tally_filter [of "\<lambda>k. k \<in> set (map w_id workplaces)"])
  qed
  then show ?thesis
    by (simp add: joined_def)
qed

text \<open>
  Claim C5: a shift whose workplaceId is the id of no workplace gives rise to no entry
  of the output, and removing all such shifts from the input leaves the output
  unchanged. Every entry of the output is the entry of a workplace of the collection,
  computed from the shifts that are not orphans.
\<close>

theorem C5_orphans_ignored:
  "getTopThreeWorkplaces engine workplaces (countShifts (filter (\<lambda>s. \<not> orphan workplaces s) shs)) =
     getTopThreeWorkplaces engine workplaces (countShifts shs) \<and>
   set (getTopThreeWorkplaces engine workplaces (countShifts shs)) \<subseteq>
     toRanked (countShifts (filter (\<lambda>s. \<not> orphan workplaces s) shs)) ` set workplaces"
proof
  show eq: "getTopThreeWorkplaces engine workplaces (countShifts (filter (\<lambda>s. \<not> orphan workplaces s) shs)) =
        getTopThreeWorkplaces engine workplaces (countShifts shs)"
    by (simp add: getTopThreeWorkplaces_def joined_without_orphans)
  have "set (getTopThreeWorkplaces engine workplaces shiftCounts) \<subseteq> toRanked shiftCounts ` set workplaces"
    for shiftCounts
    using set_take_subset [of 3 "array_sort engine compareFn (joined workplaces shiftCounts)"]
    by (simp add: getTopThreeWorkplaces_def set_array_sort joined_def)
  from this [of "countShifts (filter (\<lambda>s. \<not> orphan workplaces s) shs)"]
  show "set (getTopThreeWorkplaces engine workplaces (countShifts shs)) \<subseteq>
     toRanked (countShifts (filter (\<lambda>s. \<not> orphan workplaces s) shs)) ` set workplaces"
    by (simp add: eq)
qed

theorem C5_orphans_ignored_witness:
  "getTopThreeWorkplaces v8_short_sort [\<lparr>w_id = ''A'', w_name = ''Alpha''\<rparr>]
     (countShifts [\<lparr>workplaceId = ''A'', workerId = ''u''\<rparr>]) =
   getTopThreeWorkplaces v8_short_sort [\<lparr>w_id = ''A'', w_name = ''Alpha''\<rparr>]
     (countShifts [\<lparr>workplaceId = ''X'', workerId = ''v''\<rparr>,
                   \<lparr>workplaceId = ''A'', workerId = ''u''\<rparr>])"
  using C5_orphans_ignored
    [of v8_short_sort "[\<lparr>w_id = ''A'', w_name = ''Alpha''\<rparr>]"
        "[\<lparr>workplaceId = ''X'', workerId = ''v''\<rparr>, \<lparr>workplaceId = ''A'', workerId = ''u''\<rparr>]"]
  by (simp add: orphan_def)

subsection \<open>Failure containment\<close>

lemma try_block_failed:
  "retrieval_failed wr \<or> retrieval_failed sr \<Longrightarrow> \<exists>e. try_block engine wr sr = Inl e"
  by (cases wr rule: retrieval_failed.cases; cases sr rule: retrieval_failed.cases)
     (simp_all add: try_block_def promise_all_def)

text \<open>
  Claim C6: when either retrieval fails (it rejects, or its payload lacks the envelope
  field), \<^verbatim>\<open>getTopWorkplaces\<close> returns the empty sequence, after one diagnostic; and
  whatever the retrievals give, its promise never rejects.
\<close>

theorem C6_failure_contained:
  "(retrieval_failed wr \<or> retrieval_failed sr \<longrightarrow>
      getTopWorkplaces engine wr sr = \<lparr>settled = Inr [], console_errors = 1\<rparr>) \<and>
   (\<forall>e. settled (getTopWorkplaces engine wr sr) \<noteq> Inl e)"
proof
  show "retrieval_failed wr \<or> retrieval_failed sr \<longrightarrow>
      getTopWorkplaces engine wr sr = \<lparr>settled = Inr [], console_errors = 1\<rparr>"
    using try_block_failed [of wr sr engine] by (auto simp: getTopWorkplaces_def)
  show "\<forall>e. settled (getTopWorkplaces engine wr sr) \<noteq> Inl e"
    by (simp add: getTopWorkplaces_def split: sum.splits)
qed

theorem C6_failure_contained_witness:
  "retrieval_failed (HttpError :: Shift http_result) \<and>
   getTopWorkplaces v8_short_sort
     (HttpResponse (Body (Arr [\<lparr>w_id = ''A'', w_name = ''Alpha''\<rparr>]))) HttpError =
     \<lparr>settled = Inr [], console_errors = 1\<rparr>"
  using C6_failure_contained
    [where engine = v8_short_sort, of "HttpResponse (Body (Arr [\<lparr>w_id = ''A'', w_name = ''Alpha''\<rparr>]))" HttpError]
  by simp

subsection \<open>workerId\<close>

lemma foldl_count_step_workplaceId:
  "map workplaceId shs = map workplaceId shs' \<Longrightarrow>
   foldl count_step acc shs = foldl count_step acc shs'"
proof (induction shs arbitrary: shs' acc)
  case Nil
  then show ?case by simp
next
  case (Cons s shs)
  then obtain s' rest where split: "shs' = s' # rest" "workplaceId s = workplaceId s'"
      "map workplaceId shs = map workplaceId rest"
    by (cases shs') auto
  have "count_step acc s = count_step acc s'"
    using split(2) by (simp add: count_step_def)
  then show ?case
    using Cons.IH [OF split(3)] split(1) by simp
qed

lemma countShifts_workplaceId:
  "map workplaceId shs = map workplaceId shs' \<Longrightarrow> countShifts shs = countShifts shs'"
  unfolding countShifts_def by (rule foldl_count_step_workplaceId)

text \<open>
  Claim C7: two shift collections that agree pointwise on \<^verbatim>\<open>workplaceId\<close> give the same
  output for the same workplace collection, whatever their \<^verbatim>\<open>workerId\<close>s.
\<close>

theorem C7_workerId_unused:
  "map workplaceId shs = map workplaceId shs' \<Longrightarrow>
   getTopThreeWorkplaces engine workplaces (countShifts shs) =
   getTopThreeWorkplaces engine workplaces (countShifts shs')"
  using countShifts_workplaceId [of shs shs'] by simp

theorem C7_workerId_unused_witness:
  "map workplaceId [\<lparr>workplaceId = ''A'', workerId = ''u''\<rparr>] =
   map workplaceId [\<lparr>workplaceId = ''A'', workerId = ''v''\<rparr>] \<and>
   getTopThreeWorkplaces v8_short_sort [\<lparr>w_id = ''A'', w_name = ''Alpha''\<rparr>]
     (countShifts [\<lparr>workplaceId = ''A'', workerId = ''u''\<rparr>]) =
   getTopThreeWorkplaces v8_short_sort [\<lparr>w_id = ''A'', w_name = ''Alpha''\<rparr>]
     (countShifts [\<lparr>workplaceId = ''A'', workerId = ''v''\<rparr>])"
  using C7_workerId_unused
    [where engine = v8_short_sort, of "[\<lparr>workplaceId = ''A'', workerId = ''u''\<rparr>]" "[\<lparr>workplaceId = ''A'', workerId = ''v''\<rparr>]"
        "[\<lparr>w_id = ''A'', w_name = ''Alpha''\<rparr>]"]
  by simp

subsection \<open>The store\<close>

lemma foldl_count_step_st:
  "acc < length h \<Longrightarrow> h ! acc = Obj obj \<Longrightarrow>
   foldl (count_step_st acc) h shs = h[acc := Obj (foldl count_step obj shs)]"
proof (induction shs arbitrary: h obj)
  case Nil
  then have "h[acc := Obj obj] = h"
    by (metis list_update_id)
  then show ?case by simp
next
  case (Cons s shs)
  let ?h = "h[acc := Obj (count_step obj s)]"
  have step: "count_step_st acc h s = ?h"
    using Cons.prems by (simp add: count_step_st_def)
  have "foldl (count_step_st acc) ?h shs = ?h[acc := Obj (foldl count_step (count_step obj s) shs)]"
    using Cons.prems by (intro Cons.IH) simp_all
  then show ?case
    by (simp add: step)
qed

lemma countShifts_st_ok:
  "r < length h \<Longrightarrow> h ! r = ShiftArr shs \<Longrightarrow>
   countShifts_st h r = Inr (h @ [Obj (countShifts shs)], length h)"
  using foldl_count_step_st [of "length h" "h @ [Obj Map.empty]" Map.empty shs]
  by (simp add: countShifts_st_def alloc_def countShifts_def)

lemma getTopThreeWorkplaces_st_ok:
  "w < length h \<Longrightarrow> h ! w = WorkplaceArr workplaces \<Longrightarrow>
   c < length h \<Longrightarrow> h ! c = Obj shiftCounts \<Longrightarrow>
   getTopThreeWorkplaces_st engine h w c =
     Inr (h @ [RankedArr (array_sort engine compareFn (joined workplaces shiftCounts)),
               RankedArr (getTopThreeWorkplaces engine workplaces shiftCounts)],
          Suc (length h))"
  by (simp add: getTopThreeWorkplaces_st_def array_map_st_def array_sort_st_def
      array_slice_st_def alloc_def joined_def getTopThreeWorkplaces_def)

lemma aggregate_st_ok:
  assumes "w < length h" "h ! w = WorkplaceArr workplaces" "s < length h" "h ! s = ShiftArr shs"
  shows "aggregate_st engine h w s =
     Inr (h @ [Obj (countShifts shs),
               RankedArr (array_sort engine compareFn (joined workplaces (countShifts shs))),
               RankedArr (getTopThreeWorkplaces engine workplaces (countShifts shs))],
          Suc (Suc (length h)))"
proof -
  let ?h1 = "h @ [Obj (countShifts shs)]"
  have "getTopThreeWorkplaces_st engine ?h1 w (length h) =
     Inr (?h1 @ [RankedArr (array_sort engine compareFn (joined workplaces (countShifts shs))),
                 RankedArr (getTopThreeWorkplaces engine workplaces (countShifts shs))],
          Suc (length ?h1))"
    using assms(1,2) by (intro getTopThreeWorkplaces_st_ok) (simp_all add: nth_append)
  then show ?thesis
    using assms(3,4) by (simp add: aggregate_st_def countShifts_st_ok)
qed

text \<open>
  Claim C8: the aggregation does not write to its inputs. On a store where \<open>w\<close> refers
  to the workplace array and \<open>s\<close> to the shift array, \<^verbatim>\<open>countShifts\<close> and then
  \<^verbatim>\<open>getTopThreeWorkplaces\<close> succeed, every cell that existed before the calls is
  unchanged afterwards (the two input arrays among them, with their order), and the
  result is a new cell: the accumulator, the array that is sorted and the slice are
  all allocated by the calls.
\<close>

theorem C8_inputs_not_written:
  assumes "w < length h" "h ! w = WorkplaceArr workplaces" "s < length h" "h ! s = ShiftArr shs"
  shows "\<exists>h1 c h' r.
     countShifts_st h s = Inr (h1, c) \<and> take (length h) h1 = h \<and>
     aggregate_st engine h w s = Inr (h', r) \<and> take (length h) h' = h \<and>
     h' ! w = WorkplaceArr workplaces \<and> h' ! s = ShiftArr shs \<and>
     h' ! r = RankedArr (getTopThreeWorkplaces engine workplaces (countShifts shs))"
proof -
  let ?h' = "h @ [Obj (countShifts shs),
               RankedArr (array_sort engine compareFn (joined workplaces (countShifts shs))),
               RankedArr (getTopThreeWorkplaces engine workplaces (countShifts shs))]"
  have "countShifts_st h s = Inr (h @ [Obj (countShifts shs)], length h)"
    using assms(3,4) by (rule countShifts_st_ok)
  moreover have "aggregate_st engine h w s = Inr (?h', Suc (Suc (length h)))"
    using assms by (rule aggregate_st_ok)
  moreover have "?h' ! w = WorkplaceArr workplaces" "?h' ! s = ShiftArr shs"
    using assms by (simp_all add: nth_append)
  moreover have "?h' ! Suc (Suc (length h)) =
      RankedArr (getTopThreeWorkplaces engine workplaces (countShifts shs))"
    by (simp add: nth_append)
  ultimately show ?thesis
    by simp
qed

theorem C8_inputs_not_written_witness:
  "\<exists>h1 c h' r.
     countShifts_st [WorkplaceArr [\<lparr>w_id = ''B'', w_name = ''Beta''\<rparr>, \<lparr>w_id = ''A'', w_name = ''Alpha''\<rparr>],
                     ShiftArr [\<lparr>workplaceId = ''A'', workerId = ''u''\<rparr>]] 1 = Inr (h1, c) \<and>
     aggregate_st v8_short_sort [WorkplaceArr [\<lparr>w_id = ''B'', w_name = ''Beta''\<rparr>, \<lparr>w_id = ''A'', w_name = ''Alpha''\<rparr>],
                   ShiftArr [\<lparr>workplaceId = ''A'', workerId = ''u''\<rparr>]] 0 1 = Inr (h', r) \<and>
     h' ! 0 = WorkplaceArr [\<lparr>w_id = ''B'', w_name = ''Beta''\<rparr>, \<lparr>w_id = ''A'', w_name = ''Alpha''\<rparr>] \<and>
     h' ! 1 = ShiftArr [\<lparr>workplaceId = ''A'', workerId = ''u''\<rparr>] \<and>
     h' ! r = RankedArr [\<lparr>name = ''Alpha'', shifts = Num 1\<rparr>, \<lparr>name = ''Beta'', shifts = Num 0\<rparr>]"
proof -
  have top: "getTopThreeWorkplaces v8_short_sort [\<lparr>w_id = ''B'', w_name = ''Beta''\<rparr>, \<lparr>w_id = ''A'', w_name = ''Alpha''\<rparr>]
      (countShifts [\<lparr>workplaceId = ''A'', workerId = ''u''\<rparr>]) =
      [\<lparr>name = ''Alpha'', shifts = Num 1\<rparr>, \<lparr>name = ''Beta'', shifts = Num 0\<rparr>]"
    by (simp add: eval_defs)
  show ?thesis
    using C8_inputs_not_written
      [where engine = v8_short_sort, of 0 "[WorkplaceArr [\<lparr>w_id = ''B'', w_name = ''Beta''\<rparr>, \<lparr>w_id = ''A'', w_name = ''Alpha''\<rparr>],
              ShiftArr [\<lparr>workplaceId = ''A'', workerId = ''u''\<rparr>]]"
          "[\<lparr>w_id = ''B'', w_name = ''Beta''\<rparr>, \<lparr>w_id = ''A'', w_name = ''Alpha''\<rparr>]"
          1 "[\<lparr>workplaceId = ''A'', workerId = ''u''\<rparr>]"]
    unfolding top by simp blast
qed

subsection \<open>Duplicate ids\<close>

lemma joined_entry_per_workplace:
  "length (joined workplaces shiftCounts) = length workplaces \<and>
   (\<forall>i < length workplaces. joined workplaces shiftCounts ! i = toRanked shiftCounts (workplaces ! i))"
  by (simp add: joined_def)

lemma toRanked_same_id:
  "w_id w = w_id w' \<Longrightarrow> shifts (toRanked shiftCounts w) = shifts (toRanked shiftCounts w')"
  by (simp add: toRanked_def)

text \<open>
  Claim C10: when several workplace records share one id, each of them yields exactly
  one entry of the joined sequence, and all of them receive the same count, the number
  of shift records referencing that id. The first two parts hold for every input
  (\<open>joined_entry_per_workplace\<close>, \<open>toRanked_same_id\<close>) and the third for every id
  that is not a member of \<^verbatim>\<open>Object.prototype\<close> (\<open>joined_regular\<close>). At the shared id
  \<^verbatim>\<open>valueOf\<close> with one shift, both entries carry the text of the inherited function
  followed by \<^verbatim>\<open>1\<close>, while the number of shifts is \<open>1\<close>.
\<close>

theorem C10_shared_inherited_id:
  "joined [\<lparr>w_id = ''valueOf'', w_name = ''Alpha''\<rparr>, \<lparr>w_id = ''valueOf'', w_name = ''Beta''\<rparr>]
     (countShifts [\<lparr>workplaceId = ''valueOf'', workerId = ''u''\<rparr>]) =
     [\<lparr>name = ''Alpha'', shifts = Tail ''valueOf'' 1\<rparr>,
      \<lparr>name = ''Beta'', shifts = Tail ''valueOf'' 1\<rparr>] \<and>
   tally [\<lparr>workplaceId = ''valueOf'', workerId = ''u''\<rparr>] ''valueOf'' = 1"
  by (simp add: eval_defs)

end
